theory Spec2Isabelle
  imports Complex_Main "HOL-Library.Log_Nat"
begin

section \<open>JavaScript numbers\<close>

text \<open>
  Every value of \<^verbatim>\<open>solarSimulationPassiveLogic.js\<close> is a JavaScript number. The model
  keeps the special values of that type, because the loop of \<^verbatim>\<open>simulateHeatTransfer\<close>
  divides by \<^verbatim>\<open>mass * specificHeat\<close> without a check and its two comparisons are false on
  \<^verbatim>\<open>NaN\<close>: a number is a finite value, \<^verbatim>\<open>Infinity\<close>, \<^verbatim>\<open>-Infinity\<close> or \<^verbatim>\<open>NaN\<close>.
  Finite values are exact rationals (every double is one): the rounding of a result to 53
  bits, overflow to an infinity and the sign of zero are not modelled, so a division of a
  non-zero value by zero takes the sign of its numerator.
\<close>

datatype jsnum = Fin rat | PInf | NInf | NaN

text \<open>\<^verbatim>\<open>x * y\<close>: zero times an infinity is \<^verbatim>\<open>NaN\<close>.\<close>

fun js_mul :: "jsnum \<Rightarrow> jsnum \<Rightarrow> jsnum" where
  "js_mul NaN y = NaN"
| "js_mul x NaN = NaN"
| "js_mul (Fin a) (Fin b) = Fin (a * b)"
| "js_mul (Fin a) PInf = (if a = 0 then NaN else if 0 < a then PInf else NInf)"
| "js_mul (Fin a) NInf = (if a = 0 then NaN else if 0 < a then NInf else PInf)"
| "js_mul PInf (Fin b) = (if b = 0 then NaN else if 0 < b then PInf else NInf)"
| "js_mul NInf (Fin b) = (if b = 0 then NaN else if 0 < b then NInf else PInf)"
| "js_mul PInf PInf = PInf"
| "js_mul PInf NInf = NInf"
| "js_mul NInf PInf = NInf"
| "js_mul NInf NInf = PInf"

text \<open>
  \<^verbatim>\<open>x / y\<close>: no exception on a zero divisor; \<^verbatim>\<open>0 / 0\<close> and an infinity over an infinity
  are \<^verbatim>\<open>NaN\<close>, any other value over zero is an infinity.
\<close>

fun js_div :: "jsnum \<Rightarrow> jsnum \<Rightarrow> jsnum" where
  "js_div NaN y = NaN"
| "js_div x NaN = NaN"
| "js_div (Fin a) (Fin b) =
     (if b = 0 then (if a = 0 then NaN else if 0 < a then PInf else NInf) else Fin (a / b))"
| "js_div (Fin a) PInf = Fin 0"
| "js_div (Fin a) NInf = Fin 0"
| "js_div PInf (Fin b) = (if 0 \<le> b then PInf else NInf)"
| "js_div NInf (Fin b) = (if 0 \<le> b then NInf else PInf)"
| "js_div PInf PInf = NaN"
| "js_div PInf NInf = NaN"
| "js_div NInf PInf = NaN"
| "js_div NInf NInf = NaN"

text \<open>\<^verbatim>\<open>x + y\<close>: the sum of the two infinities is \<^verbatim>\<open>NaN\<close>.\<close>

fun js_add :: "jsnum \<Rightarrow> jsnum \<Rightarrow> jsnum" where
  "js_add NaN y = NaN"
| "js_add x NaN = NaN"
| "js_add (Fin a) (Fin b) = Fin (a + b)"
| "js_add (Fin a) PInf = PInf"
| "js_add (Fin a) NInf = NInf"
| "js_add PInf (Fin b) = PInf"
| "js_add NInf (Fin b) = NInf"
| "js_add PInf PInf = PInf"
| "js_add PInf NInf = NaN"
| "js_add NInf PInf = NaN"
| "js_add NInf NInf = NInf"

text \<open>\<^verbatim>\<open>x < y\<close> and \<^verbatim>\<open>x <= y\<close>: false as soon as one side is \<^verbatim>\<open>NaN\<close>.\<close>

fun js_lt :: "jsnum \<Rightarrow> jsnum \<Rightarrow> bool" where
  "js_lt NaN y = False"
| "js_lt x NaN = False"
| "js_lt (Fin a) (Fin b) = (a < b)"
| "js_lt (Fin a) PInf = True"
| "js_lt (Fin a) NInf = False"
| "js_lt PInf y = False"
| "js_lt NInf (Fin b) = True"
| "js_lt NInf PInf = True"
| "js_lt NInf NInf = False"

fun js_le :: "jsnum \<Rightarrow> jsnum \<Rightarrow> bool" where
  "js_le NaN y = False"
| "js_le x NaN = False"
| "js_le (Fin a) (Fin b) = (a \<le> b)"
| "js_le (Fin a) PInf = True"
| "js_le (Fin a) NInf = False"
| "js_le PInf (Fin b) = False"
| "js_le PInf PInf = True"
| "js_le PInf NInf = False"
| "js_le NInf y = True"

section \<open>The simulation\<close>

text \<open>
  The two variables the loop of \<^verbatim>\<open>simulateHeatTransfer\<close> updates.
\<close>

record sim_state =
  currentTemperature :: jsnum
  totalTime :: jsnum

text \<open>
  One pass through the body of the \<^verbatim>\<open>while\<close> loop: the energy of the step, the
  temperature increase, the two updates, and whether the safety check
  \<^verbatim>\<open>if (temperatureIncrease <= 0) break;\<close> at the end of the body leaves the loop.
\<close>

definition temperatureIncrease :: "jsnum \<Rightarrow> jsnum \<Rightarrow> jsnum \<Rightarrow> jsnum \<Rightarrow> jsnum" where
  "temperatureIncrease mass specificHeat totalPowerOutput timeStep =
     (let energyTransferred = js_mul totalPowerOutput timeStep
      in js_div energyTransferred (js_mul mass specificHeat))"

definition loop_body ::
  "jsnum \<Rightarrow> jsnum \<Rightarrow> jsnum \<Rightarrow> jsnum \<Rightarrow> sim_state \<Rightarrow> sim_state \<times> bool" where
  "loop_body mass specificHeat totalPowerOutput timeStep s =
     (let increase = temperatureIncrease mass specificHeat totalPowerOutput timeStep;
          s' = \<lparr>currentTemperature = js_add (currentTemperature s) increase,
                totalTime = js_add (totalTime s) timeStep\<rparr>
      in (s', js_le increase (Fin 0)))"

text \<open>
  The loop \<^verbatim>\<open>while (currentTemperature < targetTemperature) { ... }\<close>. Nothing bounds the
  number of passes, so the loop is a partial function: \<open>None\<close> is a run that never leaves it.
\<close>

partial_function (option) heat_loop ::
  "jsnum \<Rightarrow> jsnum \<Rightarrow> jsnum \<Rightarrow> jsnum \<Rightarrow> jsnum \<Rightarrow> sim_state \<Rightarrow> sim_state option" where
  "heat_loop mass specificHeat targetTemperature totalPowerOutput timeStep s =
     (if js_lt (currentTemperature s) targetTemperature then
        (case loop_body mass specificHeat totalPowerOutput timeStep s of
           (s', stop) \<Rightarrow>
             if stop then Some s'
             else heat_loop mass specificHeat targetTemperature totalPowerOutput timeStep s')
      else Some s)"

text \<open>
  \<^verbatim>\<open>simulateHeatTransfer(mass, specificHeat, initialTemperature, targetTemperature,
  numCollectors, collectorPower, timeStep)\<close>, once its parameters are bound: the returned
  \<^verbatim>\<open>totalTime\<close>, or \<open>None\<close> when the call never returns.
\<close>

definition simulateHeatTransfer ::
  "jsnum \<Rightarrow> jsnum \<Rightarrow> jsnum \<Rightarrow> jsnum \<Rightarrow> jsnum \<Rightarrow> jsnum \<Rightarrow> jsnum \<Rightarrow> jsnum option" where
  "simulateHeatTransfer mass specificHeat initialTemperature targetTemperature
       numCollectors collectorPower timeStep =
     (let totalPowerOutput = js_mul (js_mul numCollectors collectorPower) (Fin 1000)
      in map_option totalTime
           (heat_loop mass specificHeat targetTemperature totalPowerOutput timeStep
              \<lparr>currentTemperature = initialTemperature, totalTime = Fin 0\<rparr>))"

text \<open>
  The parameters \<^verbatim>\<open>specificHeat = 4186\<close> and \<^verbatim>\<open>timeStep = 60\<close> have default values, which
  JavaScript takes when the argument is \<^verbatim>\<open>undefined\<close> (here \<open>None\<close>).
\<close>

definition simulateHeatTransfer_call ::
  "jsnum \<Rightarrow> jsnum option \<Rightarrow> jsnum \<Rightarrow> jsnum \<Rightarrow> jsnum \<Rightarrow> jsnum \<Rightarrow> jsnum option \<Rightarrow> jsnum option" where
  "simulateHeatTransfer_call mass specificHeat initialTemperature targetTemperature
       numCollectors collectorPower timeStep =
     simulateHeatTransfer mass (case specificHeat of None \<Rightarrow> Fin 4186 | Some c \<Rightarrow> c)
       initialTemperature targetTemperature numCollectors collectorPower
       (case timeStep of None \<Rightarrow> Fin 60 | Some t \<Rightarrow> t)"

text \<open>
  The script's own call, on its constants \<^verbatim>\<open>mass = 10000\<close>, \<^verbatim>\<open>initialTemperature = 20\<close>,
  \<^verbatim>\<open>targetTemperature = 60\<close>, \<^verbatim>\<open>numCollectors = 25\<close>, \<^verbatim>\<open>collectorPower = 4\<close> and
  \<^verbatim>\<open>timeStep = 60\<close>.
\<close>

definition totalTimeInSeconds :: "jsnum option" where
  "totalTimeInSeconds =
     simulateHeatTransfer_call (Fin 10000) (Some (Fin 4186)) (Fin 20) (Fin 60) (Fin 25) (Fin 4)
       (Some (Fin 60))"

text \<open>
  The passes of the loop one by one: \<open>iterations n\<close> is the state after the \<open>n\<close>-th pass
  through the body of a loop entered in state \<open>s\<close>, with the outcome of that pass's safety
  check, and \<open>None\<close> when the loop makes fewer than \<open>n\<close> passes (it was left by the
  \<^verbatim>\<open>break\<close>, or its condition failed).
\<close>

fun iterations ::
  "nat \<Rightarrow> jsnum \<Rightarrow> jsnum \<Rightarrow> jsnum \<Rightarrow> jsnum \<Rightarrow> jsnum \<Rightarrow> sim_state \<Rightarrow> (sim_state \<times> bool) option" where
  "iterations 0 mass specificHeat targetTemperature totalPowerOutput timeStep s = Some (s, False)"
| "iterations (Suc n) mass specificHeat targetTemperature totalPowerOutput timeStep s =
     (case iterations n mass specificHeat targetTemperature totalPowerOutput timeStep s of
        None \<Rightarrow> None
      | Some (s', stop) \<Rightarrow>
          if \<not> stop \<and> js_lt (currentTemperature s') targetTemperature
          then Some (loop_body mass specificHeat totalPowerOutput timeStep s')
          else None)"

section \<open>The closed form of the specification\<close>

text \<open>
  The specification's own formula for a run on finite numbers, written from its words
  (not from the code): the temperature rise of one step,
  \<^verbatim>\<open>deltaT = (totalPowerOutput * timeStep) / (mass * specificHeat)\<close>, and the number of steps,
  \<^verbatim>\<open>ceil((targetTemperature - initialTemperature) / deltaT)\<close>.
\<close>

definition spec_deltaT :: "rat \<Rightarrow> rat \<Rightarrow> rat \<Rightarrow> rat \<Rightarrow> rat" where
  "spec_deltaT totalPowerOutput timeStep mass specificHeat =
     (totalPowerOutput * timeStep) / (mass * specificHeat)"

definition spec_steps :: "rat \<Rightarrow> rat \<Rightarrow> rat \<Rightarrow> int" where
  "spec_steps initialTemperature targetTemperature deltaT =
     \<lceil>(targetTemperature - initialTemperature) / deltaT\<rceil>"

section \<open>Binary64 arithmetic\<close>

text \<open>
  JavaScript computes every \<^verbatim>\<open>*\<close>, \<^verbatim>\<open>/\<close> and \<^verbatim>\<open>+\<close> of the source in IEEE 754 binary64: the
  exact result is rounded to the nearest value with a 53-bit significand, ties to the even
  significand; a result of magnitude \<open>2^1024\<close> or more after rounding is an infinity, and
  below the normal range (exponent \<open>-1022\<close>) the spacing of the values stays \<open>2^-1074\<close>, so
  that a result of magnitude below \<open>2^-1075\<close> is zero. The functions above without rounding
  are the exact arithmetic that the specification's formulas are written in; the functions
  of this section are the arithmetic of the source. The sign of zero is still not modelled.
\<close>

text \<open>The binary exponent of a positive rational: \<open>2^e \<le> x < 2^(e + 1)\<close>.\<close>

definition exponent_of :: "rat \<Rightarrow> int" where
  "exponent_of x =
     (case quotient_of x of (p, q) \<Rightarrow>
        let d = bitlen p - bitlen q in if 2 powi d \<le> x then d else d - 1)"

text \<open>The nearest integer, a tie going to the even one.\<close>

definition round_half_even :: "rat \<Rightarrow> int" where
  "round_half_even y =
     (let f = \<lfloor>y\<rfloor>; r = y - of_int f
      in if r < 1 / 2 then f else if 1 / 2 < r then f + 1 else if even f then f else f + 1)"

text \<open>
  Rounding to binary64. The significand is the integer \<open>n\<close> in units of \<open>ulp = 2^(e - 52)\<close>;
  the rounded magnitude \<open>\<bar>n\<bar> * ulp\<close> reaches \<open>2^1024\<close> exactly when \<open>e \<ge> 1024\<close>, or \<open>e = 1023\<close>
  and the significand rounds up to \<open>2^53\<close>.
\<close>

definition round64 :: "rat \<Rightarrow> jsnum" where
  "round64 x =
     (if x = 0 then Fin 0
      else let e = max (exponent_of \<bar>x\<bar>) (- 1022);
               ulp = 2 powi (e - 52);
               n = round_half_even (x / ulp)
           in if 1024 \<le> e \<or> (e = 1023 \<and> \<bar>n\<bar> = 2 ^ 53)
              then (if 0 < x then PInf else NInf)
              else Fin (of_int n * ulp))"

fun to_binary64 :: "jsnum \<Rightarrow> jsnum" where
  "to_binary64 (Fin r) = round64 r"
| "to_binary64 PInf = PInf"
| "to_binary64 NInf = NInf"
| "to_binary64 NaN = NaN"

text \<open>A rational that is a binary64 value: rounding leaves it as it is.\<close>

definition exact64 :: "rat \<Rightarrow> bool" where
  "exact64 x = (round64 x = Fin x)"

text \<open>The three operations of the source, correctly rounded.\<close>

definition mul64 :: "jsnum \<Rightarrow> jsnum \<Rightarrow> jsnum" where
  "mul64 x y = to_binary64 (js_mul x y)"

definition div64 :: "jsnum \<Rightarrow> jsnum \<Rightarrow> jsnum" where
  "div64 x y = to_binary64 (js_div x y)"

definition add64 :: "jsnum \<Rightarrow> jsnum \<Rightarrow> jsnum" where
  "add64 x y = to_binary64 (js_add x y)"

section \<open>The simulation in binary64\<close>

text \<open>
  The same function, lines 16 to 51 of the source, with the operations of the source:
  the body of the loop, the loop, the call and the passes of the loop one by one.
\<close>

definition temperatureIncrease64 :: "jsnum \<Rightarrow> jsnum \<Rightarrow> jsnum \<Rightarrow> jsnum \<Rightarrow> jsnum" where
  "temperatureIncrease64 mass specificHeat totalPowerOutput timeStep =
     (let energyTransferred = mul64 totalPowerOutput timeStep
      in div64 energyTransferred (mul64 mass specificHeat))"

definition loop_body64 ::
  "jsnum \<Rightarrow> jsnum \<Rightarrow> jsnum \<Rightarrow> jsnum \<Rightarrow> sim_state \<Rightarrow> sim_state \<times> bool" where
  "loop_body64 mass specificHeat totalPowerOutput timeStep s =
     (let increase = temperatureIncrease64 mass specificHeat totalPowerOutput timeStep;
          s' = \<lparr>currentTemperature = add64 (currentTemperature s) increase,
                totalTime = add64 (totalTime s) timeStep\<rparr>
      in (s', js_le increase (Fin 0)))"

partial_function (option) heat_loop64 ::
  "jsnum \<Rightarrow> jsnum \<Rightarrow> jsnum \<Rightarrow> jsnum \<Rightarrow> jsnum \<Rightarrow> sim_state \<Rightarrow> sim_state option" where
  "heat_loop64 mass specificHeat targetTemperature totalPowerOutput timeStep s =
     (if js_lt (currentTemperature s) targetTemperature then
        (case loop_body64 mass specificHeat totalPowerOutput timeStep s of
           (s', stop) \<Rightarrow>
             if stop then Some s'
             else heat_loop64 mass specificHeat targetTemperature totalPowerOutput timeStep s')
      else Some s)"

definition simulateHeatTransfer64 ::
  "jsnum \<Rightarrow> jsnum \<Rightarrow> jsnum \<Rightarrow> jsnum \<Rightarrow> jsnum \<Rightarrow> jsnum \<Rightarrow> jsnum \<Rightarrow> jsnum option" where
  "simulateHeatTransfer64 mass specificHeat initialTemperature targetTemperature
       numCollectors collectorPower timeStep =
     (let totalPowerOutput = mul64 (mul64 numCollectors collectorPower) (Fin 1000)
      in map_option totalTime
           (heat_loop64 mass specificHeat targetTemperature totalPowerOutput timeStep
              \<lparr>currentTemperature = initialTemperature, totalTime = Fin 0\<rparr>))"

fun iterations64 ::
  "nat \<Rightarrow> jsnum \<Rightarrow> jsnum \<Rightarrow> jsnum \<Rightarrow> jsnum \<Rightarrow> jsnum \<Rightarrow> sim_state \<Rightarrow> (sim_state \<times> bool) option" where
  "iterations64 0 mass specificHeat targetTemperature totalPowerOutput timeStep s = Some (s, False)"
| "iterations64 (Suc n) mass specificHeat targetTemperature totalPowerOutput timeStep s =
     (case iterations64 n mass specificHeat targetTemperature totalPowerOutput timeStep s of
        None \<Rightarrow> None
      | Some (s', stop) \<Rightarrow>
          if \<not> stop \<and> js_lt (currentTemperature s') targetTemperature
          then Some (loop_body64 mass specificHeat totalPowerOutput timeStep s')
          else None)"

text \<open>
  A run on finite inputs in which no operation rounds: the seven arguments are binary64
  values, and so are the exact values of the products, of the quotient \<open>deltaT\<close> and of the
  partial sums \<open>initialTemperature + k * deltaT\<close> and \<open>k * timeStep\<close> up to the number of
  steps of the specification's formula.
\<close>

definition run_exact :: "rat \<Rightarrow> rat \<Rightarrow> rat \<Rightarrow> rat \<Rightarrow> rat \<Rightarrow> rat \<Rightarrow> rat \<Rightarrow> bool" where
  "run_exact mass specificHeat initialTemperature targetTemperature
       numCollectors collectorPower timeStep =
     (let totalPowerOutput = numCollectors * collectorPower * 1000;
          deltaT = spec_deltaT totalPowerOutput timeStep mass specificHeat;
          n = nat (spec_steps initialTemperature targetTemperature deltaT)
      in exact64 mass \<and> exact64 specificHeat \<and> exact64 initialTemperature
         \<and> exact64 targetTemperature \<and> exact64 numCollectors \<and> exact64 collectorPower
         \<and> exact64 timeStep
         \<and> exact64 (numCollectors * collectorPower) \<and> exact64 totalPowerOutput
         \<and> exact64 (totalPowerOutput * timeStep) \<and> exact64 (mass * specificHeat)
         \<and> exact64 deltaT
         \<and> (\<forall>k \<in> {1..n}. exact64 (initialTemperature + of_nat k * deltaT)
                          \<and> exact64 (of_nat k * timeStep)))"

section \<open>Unfolding the loop\<close>

lemma heat_loop_exit:
  "\<not> js_lt (currentTemperature s) tt \<Longrightarrow> heat_loop m c tt P ts s = Some s"
  by (subst heat_loop.simps) simp

lemma heat_loop_enter:
  "js_lt (currentTemperature s) tt \<Longrightarrow>
   heat_loop m c tt P ts s =
     (case loop_body m c P ts s of
        (s', stop) \<Rightarrow> if stop then Some s' else heat_loop m c tt P ts s')"
  by (subst heat_loop.simps) simp

lemma heat_loop_finite:
  assumes inc: "temperatureIncrease m c P (Fin ts) = Fin d" and d: "0 < d"
  shows "heat_loop m c (Fin tt) P (Fin ts) \<lparr>currentTemperature = Fin cur, totalTime = Fin T\<rparr> =
     Some \<lparr>currentTemperature = Fin (cur + of_nat (nat \<lceil>(tt - cur) / d\<rceil>) * d),
           totalTime = Fin (T + of_nat (nat \<lceil>(tt - cur) / d\<rceil>) * ts)\<rparr>"
proof (induction "nat \<lceil>(tt - cur) / d\<rceil>" arbitrary: cur T)
  case 0
  then have "\<lceil>(tt - cur) / d\<rceil> \<le> 0" by simp
  then have "(tt - cur) / d \<le> 0" by simp
  with d have "tt \<le> cur" by (simp add: divide_le_0_iff)
  then have "\<not> js_lt (currentTemperature \<lparr>currentTemperature = Fin cur, totalTime = Fin T\<rparr>) (Fin tt)"
    by simp
  then show ?case using 0 by (simp add: heat_loop_exit)
next
  case (Suc k)
  then have pos: "0 < \<lceil>(tt - cur) / d\<rceil>" by linarith
  then have "0 < (tt - cur) / d" by simp
  with d have lt: "cur < tt" by (simp add: zero_less_divide_iff)
  have "(tt - (cur + d)) / d = (tt - cur) / d - 1" using d by (simp add: field_simps)
  then have "\<lceil>(tt - (cur + d)) / d\<rceil> = \<lceil>(tt - cur) / d\<rceil> - 1" by simp
  with Suc(2) have k: "k = nat \<lceil>(tt - (cur + d)) / d\<rceil>" by linarith
  have body: "loop_body m c P (Fin ts) \<lparr>currentTemperature = Fin cur, totalTime = Fin T\<rparr> =
      (\<lparr>currentTemperature = Fin (cur + d), totalTime = Fin (T + ts)\<rparr>, False)"
    using inc d by (simp add: loop_body_def)
  have "heat_loop m c (Fin tt) P (Fin ts) \<lparr>currentTemperature = Fin cur, totalTime = Fin T\<rparr> =
        heat_loop m c (Fin tt) P (Fin ts) \<lparr>currentTemperature = Fin (cur + d), totalTime = Fin (T + ts)\<rparr>"
    using lt by (simp add: heat_loop_enter body)
  also have "\<dots> = Some \<lparr>currentTemperature = Fin (cur + d + of_nat k * d),
           totalTime = Fin (T + ts + of_nat k * ts)\<rparr>"
    using Suc(1)[OF k] k by simp
  finally show ?case using Suc(2)[symmetric] by (simp add: algebra_simps)
qed

lemma increase_finite:
  "m * c \<noteq> 0 \<Longrightarrow>
   temperatureIncrease (Fin m) (Fin c) (js_mul (js_mul (Fin nc) (Fin cp)) (Fin 1000)) (Fin ts) =
     Fin (spec_deltaT (nc * cp * 1000) ts m c)"
  by (simp add: temperatureIncrease_def spec_deltaT_def)

lemma simulate_closed_form:
  assumes "m * c \<noteq> 0" and "0 < spec_deltaT (nc * cp * 1000) ts m c"
  shows "simulateHeatTransfer (Fin m) (Fin c) (Fin ti) (Fin tt) (Fin nc) (Fin cp) (Fin ts) =
     Some (Fin (of_nat (nat (spec_steps ti tt (spec_deltaT (nc * cp * 1000) ts m c))) * ts))"
  using heat_loop_finite [OF increase_finite [OF assms(1)] assms(2), of tt ti 0]
  by (simp add: simulateHeatTransfer_def spec_steps_def)

lemma deltaT_pos:
  "0 < m \<Longrightarrow> 0 < c \<Longrightarrow> 0 < ts \<Longrightarrow> 0 < P \<Longrightarrow> 0 < spec_deltaT P ts m c"
  by (simp add: spec_deltaT_def)

section \<open>The reference scenario\<close>

text \<open>The script's own scenario takes 280 steps of 60 seconds.\<close>

lemma reference_steps: "spec_steps 20 60 (spec_deltaT (25 * 4 * 1000) 60 10000 4186) = 280"
  by (simp add: spec_steps_def spec_deltaT_def) (rule ceiling_unique; simp)

lemma reference_run:
  "simulateHeatTransfer (Fin 10000) (Fin 4186) (Fin 20) (Fin 60) (Fin 25) (Fin 4) (Fin 60) =
     Some (Fin 16800)"
proof -
  have "(0::rat) < spec_deltaT (25 * 4 * 1000) 60 10000 4186" by (simp add: spec_deltaT_def)
  from simulate_closed_form [OF _ this, of 20 60] reference_steps show ?thesis
    by simp
qed

text \<open>
  C5 (as amended). On the reference scenario \<open>mass = 10000\<close>, \<open>specificHeat = 4186\<close>,
  \<open>initialTemperature = 20\<close>, \<open>targetTemperature = 60\<close>, \<open>numCollectors = 25\<close>,
  \<open>collectorPower = 4\<close>, \<open>timeStep = 60\<close> the call, and the script's \<^verbatim>\<open>totalTimeInSeconds\<close>,
  is 16800 seconds: 280 steps of 60 seconds, since
  \<open>40 / (6000000 / 41860000) = 279.07\<close> and its ceiling is 280.
\<close>

theorem C5_reference_scenario:
  "simulateHeatTransfer (Fin 10000) (Fin 4186) (Fin 20) (Fin 60) (Fin 25) (Fin 4) (Fin 60) =
     Some (Fin 16800)
   \<and> totalTimeInSeconds = Some (Fin (280 * 60))
   \<and> spec_steps 20 60 (spec_deltaT (25 * 4 * 1000) 60 10000 4186) = 280"
  using reference_run reference_steps
  by (simp add: totalTimeInSeconds_def simulateHeatTransfer_call_def)

text \<open>
  C5 as stated fails: the call does not return 16740, and the number of steps needed is
  not 279 (after 279 steps the temperature is still below 60).
\<close>

theorem C5_counterexample:
  "simulateHeatTransfer (Fin 10000) (Fin 4186) (Fin 20) (Fin 60) (Fin 25) (Fin 4) (Fin 60) \<noteq>
     Some (Fin 16740)
   \<and> spec_steps 20 60 (spec_deltaT (25 * 4 * 1000) 60 10000 4186) \<noteq> 279"
  using reference_run reference_steps by simp

section \<open>Runs of no step and of one step\<close>

lemma js_le_not_lt: "js_le a b \<Longrightarrow> \<not> js_lt b a"
  by (cases a; cases b) simp_all

lemma iterations_not_entered:
  "\<not> js_lt (currentTemperature s) tt \<Longrightarrow> iterations (Suc n) m c tt P ts s = None"
  by (induction n) simp_all

text \<open>
  C2. For every input, finite or not, with \<open>targetTemperature <= initialTemperature\<close>
  (JavaScript's comparison): the loop makes no pass (there is no first pass, nor any later
  one) and the call returns exactly 0.
\<close>

theorem C2_target_not_above_initial:
  assumes "js_le targetTemperature initialTemperature"
  shows "simulateHeatTransfer mass specificHeat initialTemperature targetTemperature
           numCollectors collectorPower timeStep = Some (Fin 0)
       \<and> iterations (Suc n) mass specificHeat targetTemperature
           (js_mul (js_mul numCollectors collectorPower) (Fin 1000)) timeStep
           \<lparr>currentTemperature = initialTemperature, totalTime = Fin 0\<rparr> = None"
  using js_le_not_lt [OF assms]
  by (simp add: simulateHeatTransfer_def heat_loop_exit iterations_not_entered
      del: iterations.simps)

text \<open>The reference scenario with the target at the initial 20 degrees.\<close>

theorem C2_target_not_above_initial_witness:
  "js_le (Fin 20) (Fin 20)
   \<and> simulateHeatTransfer (Fin 10000) (Fin 4186) (Fin 20) (Fin 20) (Fin 25) (Fin 4) (Fin 60) =
       Some (Fin 0)
   \<and> iterations (Suc 0) (Fin 10000) (Fin 4186) (Fin 20)
           (js_mul (js_mul (Fin 25) (Fin 4)) (Fin 1000)) (Fin 60)
           \<lparr>currentTemperature = Fin 20, totalTime = Fin 0\<rparr> = None"
  using C2_target_not_above_initial [of "Fin 20" "Fin 20" "Fin 10000" "Fin 4186" "Fin 25" "Fin 4" "Fin 60" 0]
  by (simp del: iterations.simps)

text \<open>A loop that is entered and whose first pass ends it.\<close>

lemma heat_loop_single_pass:
  assumes "js_lt (currentTemperature s) tt" and "loop_body m c P ts s = (s', stop)"
    and "stop \<or> \<not> js_lt (currentTemperature s') tt"
  shows "heat_loop m c tt P ts s = Some s'"
  using assms by (auto simp add: heat_loop_enter heat_loop_exit)

lemma iterations_single_pass:
  assumes "js_lt (currentTemperature s) tt" and "loop_body m c P ts s = (s', stop)"
    and "stop \<or> \<not> js_lt (currentTemperature s') tt"
  shows "iterations (Suc 0) m c tt P ts s = Some (s', stop)"
    and "iterations (Suc (Suc 0)) m c tt P ts s = None"
  using assms by auto

lemma js_add_zero_left: "js_add (Fin 0) x = x"
  by (cases x) simp_all

lemma js_add_NaN_right: "js_add x NaN = NaN"
  by (cases x) simp_all

lemma js_add_PInf_not_lt: "\<not> js_lt (js_add x PInf) y"
  by (cases x; cases y) simp_all

section \<open>Division by zero\<close>

lemma js_mul_zero: "js_mul (Fin 0) x = Fin 0 \<or> js_mul (Fin 0) x = NaN"
  "js_mul x (Fin 0) = Fin 0 \<or> js_mul x (Fin 0) = NaN"
  by (cases x; simp)+

lemma js_div_NaN_right: "js_div x NaN = NaN"
  by (cases x) simp_all

lemma js_div_zero: "js_div x (Fin 0) = PInf \<or> js_div x (Fin 0) = NInf \<or> js_div x (Fin 0) = NaN"
  by (cases x) simp_all

lemma increase_zero_capacity:
  assumes "m = Fin 0 \<or> c = Fin 0"
  shows "temperatureIncrease m c P ts = PInf \<or> temperatureIncrease m c P ts = NInf
     \<or> temperatureIncrease m c P ts = NaN"
proof -
  have "js_mul m c = Fin 0 \<or> js_mul m c = NaN" using assms js_mul_zero by auto
  then show ?thesis
    using js_div_zero [of "js_mul P ts"] by (auto simp add: temperatureIncrease_def js_div_NaN_right)
qed

lemma zero_capacity_single_pass:
  assumes "m = Fin 0 \<or> c = Fin 0" and "js_lt ti tt"
  shows "\<exists>s' stop.
     loop_body m c P ts \<lparr>currentTemperature = ti, totalTime = Fin 0\<rparr> = (s', stop)
     \<and> totalTime s' = ts \<and> (stop \<or> \<not> js_lt (currentTemperature s') tt)"
  using increase_zero_capacity [OF assms(1), of P ts]
  by (auto simp add: loop_body_def js_add_zero_left js_add_NaN_right js_add_PInf_not_lt)

lemma zero_capacity_returns:
  assumes "m = Fin 0 \<or> c = Fin 0" and "js_lt ti tt"
  shows "simulateHeatTransfer m c ti tt nc cp ts = Some ts"
proof -
  let ?P = "js_mul (js_mul nc cp) (Fin 1000)"
  let ?s = "\<lparr>currentTemperature = ti, totalTime = Fin 0\<rparr>"
  obtain s' stop where b: "loop_body m c ?P ts ?s = (s', stop)" and t: "totalTime s' = ts"
    and l: "stop \<or> \<not> js_lt (currentTemperature s') tt"
    using zero_capacity_single_pass [OF assms] by blast
  have "js_lt (currentTemperature ?s) tt" using assms(2) by simp
  from heat_loop_single_pass [OF this b l] t show ?thesis
    by (simp add: simulateHeatTransfer_def)
qed

text \<open>
  C8 (as amended). For every input, finite or not, with \<open>mass = 0\<close> or \<open>specificHeat = 0\<close>
  and \<open>targetTemperature > initialTemperature\<close>: the temperature increase is not finite
  (\<open>Infinity\<close>, \<open>-Infinity\<close> or \<open>NaN\<close>), and the call returns, with \<open>timeStep\<close>, after one
  pass; there is no second pass. (The check catches \<open>-Infinity\<close>; after \<open>Infinity\<close> or
  \<open>NaN\<close> the temperature is \<open>Infinity\<close> or \<open>NaN\<close>, and the loop condition is false.)
\<close>

theorem C8_zero_capacity_terminates:
  assumes "mass = Fin 0 \<or> specificHeat = Fin 0"
    and "js_lt initialTemperature targetTemperature"
  shows "simulateHeatTransfer mass specificHeat initialTemperature targetTemperature
           numCollectors collectorPower timeStep = Some timeStep
       \<and> temperatureIncrease mass specificHeat
           (js_mul (js_mul numCollectors collectorPower) (Fin 1000)) timeStep \<in> {PInf, NInf, NaN}
       \<and> iterations (Suc (Suc 0)) mass specificHeat targetTemperature
           (js_mul (js_mul numCollectors collectorPower) (Fin 1000)) timeStep
           \<lparr>currentTemperature = initialTemperature, totalTime = Fin 0\<rparr> = None"
proof -
  let ?P = "js_mul (js_mul numCollectors collectorPower) (Fin 1000)"
  let ?s = "\<lparr>currentTemperature = initialTemperature, totalTime = Fin 0\<rparr>"
  obtain s' stop where b: "loop_body mass specificHeat ?P timeStep ?s = (s', stop)"
    and l: "stop \<or> \<not> js_lt (currentTemperature s') targetTemperature"
    using zero_capacity_single_pass [OF assms] by blast
  have e: "js_lt (currentTemperature ?s) targetTemperature" using assms(2) by simp
  show ?thesis
    using zero_capacity_returns [OF assms] increase_zero_capacity [OF assms(1), of ?P timeStep]
      iterations_single_pass(2) [OF e b l]
    by (simp del: iterations.simps)
qed

text \<open>The reference scenario with no mass: the increase is \<open>Infinity\<close>.\<close>

theorem C8_zero_capacity_terminates_witness:
  "simulateHeatTransfer (Fin 0) (Fin 4186) (Fin 20) (Fin 60) (Fin 25) (Fin 4) (Fin 60) =
     Some (Fin 60)
   \<and> temperatureIncrease (Fin 0) (Fin 4186) (js_mul (js_mul (Fin 25) (Fin 4)) (Fin 1000)) (Fin 60)
       = PInf"
  using C8_zero_capacity_terminates [of "Fin 0" "Fin 4186" "Fin 20" "Fin 60" "Fin 25" "Fin 4" "Fin 60"]
  by (simp add: temperatureIncrease_def)

text \<open>
  C8 as stated fails: no input with \<open>mass = 0\<close> or \<open>specificHeat = 0\<close> and
  \<open>targetTemperature > initialTemperature\<close> keeps the call from returning.
\<close>

theorem C8_counterexample:
  "\<not> (\<exists>mass specificHeat initialTemperature targetTemperature numCollectors collectorPower timeStep.
        (mass = Fin 0 \<or> specificHeat = Fin 0)
        \<and> js_lt initialTemperature targetTemperature
        \<and> simulateHeatTransfer mass specificHeat initialTemperature targetTemperature
             numCollectors collectorPower timeStep = None)"
  using zero_capacity_returns by fastforce

section \<open>The two factors of the power\<close>

lemma js_mul_commute: "js_mul x y = js_mul y x"
  by (cases x; cases y) (simp_all add: mult.commute)

text \<open>
  C10. For every input, finite or not, swapping \<open>numCollectors\<close> and \<open>collectorPower\<close>
  leaves the result unchanged (also when the call does not return), and two inputs that
  differ only in these two, with the same product, have the same result.
\<close>

theorem C10_product_symmetry:
  "simulateHeatTransfer mass specificHeat initialTemperature targetTemperature
       numCollectors collectorPower timeStep =
     simulateHeatTransfer mass specificHeat initialTemperature targetTemperature
       collectorPower numCollectors timeStep
   \<and> (js_mul numCollectors collectorPower = js_mul numCollectors' collectorPower' \<longrightarrow>
       simulateHeatTransfer mass specificHeat initialTemperature targetTemperature
         numCollectors collectorPower timeStep =
       simulateHeatTransfer mass specificHeat initialTemperature targetTemperature
         numCollectors' collectorPower' timeStep)"
  by (simp add: simulateHeatTransfer_def js_mul_commute [of numCollectors collectorPower])

text \<open>25 collectors of 4 kW, 50 of 2 kW and 4 of 25 kW.\<close>

theorem C10_product_symmetry_witness:
  "js_mul (Fin 25) (Fin 4) = js_mul (Fin 50) (Fin 2)
   \<and> simulateHeatTransfer (Fin 10000) (Fin 4186) (Fin 20) (Fin 60) (Fin 25) (Fin 4) (Fin 60) =
       simulateHeatTransfer (Fin 10000) (Fin 4186) (Fin 20) (Fin 60) (Fin 50) (Fin 2) (Fin 60)
   \<and> simulateHeatTransfer (Fin 10000) (Fin 4186) (Fin 20) (Fin 60) (Fin 25) (Fin 4) (Fin 60) =
       simulateHeatTransfer (Fin 10000) (Fin 4186) (Fin 20) (Fin 60) (Fin 4) (Fin 25) (Fin 60)"
  using C10_product_symmetry [of "Fin 10000" "Fin 4186" "Fin 20" "Fin 60" "Fin 25" "Fin 4" "Fin 60" "Fin 50" "Fin 2"]
  by auto

section \<open>Rounding to binary64\<close>

text \<open>
  The binary exponent of a positive rational is the one integer \<open>e\<close> with
  \<open>2^e \<le> x < 2^(e + 1)\<close>, and it can be computed by halving and doubling.
\<close>

lemma of_int_bitlen_bounds:
  assumes "0 < (p::int)"
  shows "(2::rat) powi (bitlen p - 1) \<le> of_int p" and "of_int p < (2::rat) powi (bitlen p)"
proof -
  from assms have b: "1 \<le> bitlen p" by (simp add: bitlen_alt_def)
  from bitlen_bounds [OF assms]
  have lo: "2 ^ nat (bitlen p - 1) \<le> p" and hi: "p < 2 ^ nat (bitlen p)" by simp_all
  from lo have "(of_int (2 ^ nat (bitlen p - 1)) :: rat) \<le> of_int p" by (simp only: of_int_le_iff)
  then show "(2::rat) powi (bitlen p - 1) \<le> of_int p"
    using b by (simp add: power_int_def)
  from hi have "(of_int p :: rat) < of_int (2 ^ nat (bitlen p))" by (simp only: of_int_less_iff)
  then show "of_int p < (2::rat) powi (bitlen p)"
    using b by (simp add: power_int_def)
qed

lemma exponent_of_bounds:
  assumes "0 < x"
  shows "2 powi (exponent_of x) \<le> x" and "x < 2 powi (exponent_of x + 1)"
proof -
  obtain p q where pq: "quotient_of x = (p, q)" by (cases "quotient_of x")
  then have q: "0 < q" by (rule quotient_of_denom_pos)
  from pq have x: "x = of_int p / of_int q" by (rule quotient_of_div)
  with assms q have p: "0 < p" by (simp add: zero_less_divide_iff)
  let ?d = "bitlen p - bitlen q"
  have "x < 2 powi (bitlen p) / 2 powi (bitlen q - 1)"
    unfolding x using of_int_bitlen_bounds [OF p] of_int_bitlen_bounds [OF q] p q
    by (intro frac_less) simp_all
  also have "\<dots> = 2 powi (?d + 1)"
    by (simp add: power_int_diff [symmetric] algebra_simps)
  finally have hi: "x < 2 powi (?d + 1)" .
  have "2 powi (bitlen p - 1) / 2 powi (bitlen q) < x"
    unfolding x using of_int_bitlen_bounds [OF p] of_int_bitlen_bounds [OF q] p q
    by (intro frac_less2) simp_all
  moreover have "2 powi (bitlen p - 1) / 2 powi (bitlen q) = (2::rat) powi (?d - 1)"
    by (simp add: power_int_diff [symmetric] algebra_simps)
  ultimately have lo: "2 powi (?d - 1) < x" by simp
  show "2 powi (exponent_of x) \<le> x"
    using lo by (simp add: exponent_of_def pq Let_def)
  show "x < 2 powi (exponent_of x + 1)"
    using hi by (simp add: exponent_of_def pq Let_def not_le)
qed

lemma powi2_less_imp_less:
  assumes "(2::rat) powi a < 2 powi b"
  shows "a < b"
proof (rule ccontr)
  assume "\<not> a < b"
  then have "b \<le> a" by simp
  then have "(2::rat) powi b \<le> 2 powi a" by (intro power_int_increasing) simp_all
  with assms show False by simp
qed

lemma exponent_of_unique:
  assumes "2 powi e \<le> x" and "x < 2 powi (e + 1)"
  shows "exponent_of x = e"
proof -
  have x: "0 < x" using assms(1) by (rule less_le_trans [rotated]) simp
  from exponent_of_bounds [OF x] assms
  have "(2::rat) powi (exponent_of x) < 2 powi (e + 1)" and "(2::rat) powi e < 2 powi (exponent_of x + 1)"
    by simp_all
  then have "exponent_of x < e + 1" and "e < exponent_of x + 1"
    by (auto dest: powi2_less_imp_less)
  then show ?thesis by simp
qed

lemma exponent_of_step:
  assumes "0 < x"
  shows "exponent_of x =
     (if 2 \<le> x then exponent_of (x / 2) + 1 else if x < 1 then exponent_of (x * 2) - 1 else 0)"
proof -
  have up: "exponent_of x = exponent_of (x / 2) + 1"
  proof (rule exponent_of_unique)
    have h: "0 < x / 2" using assms by simp
    from exponent_of_bounds [OF h]
    show "2 powi (exponent_of (x / 2) + 1) \<le> x" and "x < 2 powi (exponent_of (x / 2) + 1 + 1)"
      by (simp_all add: power_int_add field_simps)
  qed
  have down: "exponent_of x = exponent_of (x * 2) - 1"
  proof (rule exponent_of_unique)
    have h: "0 < x * 2" using assms by simp
    have "(2::rat) powi (exponent_of (x * 2) - 1) = 2 powi (exponent_of (x * 2)) / 2"
      by (simp add: power_int_diff)
    with exponent_of_bounds [OF h]
    show "2 powi (exponent_of (x * 2) - 1) \<le> x" and "x < 2 powi (exponent_of (x * 2) - 1 + 1)"
      by (simp_all add: power_int_add)
  qed
  have mid: "exponent_of x = 0" if "1 \<le> x" and "x < 2"
    by (rule exponent_of_unique) (use that in simp_all)
  show ?thesis using up down mid by (auto simp add: not_le not_less)
qed

lemma floor_numeral_quotient [simp]:
  "\<lfloor>numeral a / numeral b :: rat\<rfloor> = numeral a div numeral b"
  "\<lfloor>- (numeral a / numeral b) :: rat\<rfloor> = - numeral a div numeral b"
  by (metis floor_divide_of_int_eq of_int_numeral)
     (metis floor_divide_of_int_eq of_int_numeral of_int_minus minus_divide_left)

lemma exponent_of_le:
  assumes "0 < x" and "x < 2 powi (e + 1)"
  shows "exponent_of x \<le> e"
proof -
  from exponent_of_bounds(1) [OF assms(1)] assms(2)
  have "(2::rat) powi (exponent_of x) < 2 powi (e + 1)" by simp
  then have "exponent_of x < e + 1" by (rule powi2_less_imp_less)
  then show ?thesis by simp
qed

lemma exponent_of_mono:
  assumes "0 < x" and "x \<le> y"
  shows "exponent_of x \<le> exponent_of y"
proof -
  have "0 < y" using assms by simp
  from exponent_of_bounds(2) [OF this] assms(2) have "x < 2 powi (exponent_of y + 1)" by simp
  with assms(1) show ?thesis by (rule exponent_of_le)
qed

text \<open>The nearest integer is monotone and leaves an integer as it is.\<close>

lemma round_half_even_of_int: "round_half_even (of_int n) = n"
  by (simp add: round_half_even_def)

lemma round_half_even_ge: "of_int n \<le> y \<Longrightarrow> n \<le> round_half_even y"
proof -
  assume "of_int n \<le> y"
  then have "n \<le> \<lfloor>y\<rfloor>" by (simp add: le_floor_iff)
  then show ?thesis by (simp add: round_half_even_def Let_def)
qed

lemma round_half_even_le: "y \<le> of_int n \<Longrightarrow> round_half_even y \<le> n"
proof (cases "y = of_int n")
  case True
  then show ?thesis by (simp add: round_half_even_of_int)
next
  case False
  assume "y \<le> of_int n"
  with False have "y < of_int n" by simp
  then have "\<lfloor>y\<rfloor> < n" by (simp add: floor_less_iff)
  then show ?thesis by (simp add: round_half_even_def Let_def)
qed

text \<open>
  The parts of a rounding: the exponent, clamped at the subnormal range, the unit in
  the last place and the significand.
\<close>

lemma round64_parts:
  assumes "x \<noteq> 0"
  obtains E U N where "E = max (exponent_of \<bar>x\<bar>) (- 1022)" and "U = 2 powi (E - 52)"
    and "N = round_half_even (x / U)"
    and "round64 x = (if 1024 \<le> E \<or> (E = 1023 \<and> \<bar>N\<bar> = 2 ^ 53)
                      then (if 0 < x then PInf else NInf) else Fin (of_int N * U))"
    and "0 < U" and "\<bar>x\<bar> < 2 ^ 53 * U" and "\<bar>N\<bar> \<le> 2 ^ 53"
    and "- 1022 < E \<longrightarrow> 2 ^ 52 * U \<le> \<bar>x\<bar>"
    and "- 1022 \<le> E" and "exponent_of \<bar>x\<bar> \<le> E"
proof -
  define E where "E = max (exponent_of \<bar>x\<bar>) (- 1022)"
  define U :: rat where "U = 2 powi (E - 52)"
  define N where "N = round_half_even (x / U)"
  have U: "0 < U" by (simp add: U_def)
  have x: "0 < \<bar>x\<bar>" using assms by simp
  have up: "2 ^ 53 * U = 2 powi (E + 1)"
    by (simp add: U_def power_int_diff power_int_add)
  have lo: "2 ^ 52 * U = 2 powi E"
    by (simp add: U_def power_int_diff)
  have "\<bar>x\<bar> < 2 powi (exponent_of \<bar>x\<bar> + 1)" by (rule exponent_of_bounds(2) [OF x])
  also have "\<dots> \<le> 2 powi (E + 1)" by (intro power_int_increasing) (simp_all add: E_def)
  finally have hi: "\<bar>x\<bar> < 2 ^ 53 * U" by (simp only: up)
  then have "x / U < 2 ^ 53" and "- (2 ^ 53) < x / U"
    using U by (simp_all add: pos_divide_less_eq pos_less_divide_eq abs_less_iff)
  then have b: "x / U \<le> of_int (2 ^ 53)" "of_int (- (2 ^ 53)) \<le> x / U" by simp_all
  have "N \<le> 2 ^ 53" unfolding N_def using b(1) by (rule round_half_even_le)
  moreover have "- (2 ^ 53) \<le> N" unfolding N_def using b(2) by (rule round_half_even_ge)
  ultimately have N: "\<bar>N\<bar> \<le> 2 ^ 53" by simp
  have norm: "- 1022 < E \<longrightarrow> 2 ^ 52 * U \<le> \<bar>x\<bar>"
  proof
    assume "- 1022 < E"
    then have "E = exponent_of \<bar>x\<bar>" by (simp add: E_def max_def split: if_splits)
    with exponent_of_bounds(1) [OF x] show "2 ^ 52 * U \<le> \<bar>x\<bar>" by (simp only: lo)
  qed
  have r: "round64 x = (if 1024 \<le> E \<or> (E = 1023 \<and> \<bar>N\<bar> = 2 ^ 53)
                      then (if 0 < x then PInf else NInf) else Fin (of_int N * U))"
    unfolding E_def U_def N_def by (simp only: round64_def Let_def assms if_False)
  have E: "- 1022 \<le> E" "exponent_of \<bar>x\<bar> \<le> E" by (simp_all add: E_def)
  show thesis by (rule that [OF E_def U_def N_def r U hi N norm E])
qed

lemma round64_zero: "round64 0 = Fin 0"
  by (simp add: round64_def)

text \<open>A rounded value is a binary64 value: rounding it again changes nothing.\<close>

lemma ulp_ratio:
  assumes "E' \<le> E"
  shows "(2::rat) powi (E - 52) = of_int (2 ^ nat (E - E')) * 2 powi (E' - 52)"
proof -
  have "(2::rat) powi (E - 52) = 2 powi (E - E') * 2 powi (E' - 52)"
    by (simp add: power_int_add [symmetric])
  also have "(2::rat) powi (E - E') = of_int (2 ^ nat (E - E'))"
    using assms by (simp add: power_int_def)
  finally show ?thesis .
qed

lemma round64_idem:
  assumes "round64 x = Fin y"
  shows "round64 y = Fin y"
proof (cases "x = 0 \<or> y = 0")
  case True
  with assms show ?thesis by (auto simp add: round64_zero)
next
  case False
  then have x: "x \<noteq> 0" and y: "y \<noteq> 0" by simp_all
  from x obtain E U N where E: "E = max (exponent_of \<bar>x\<bar>) (- 1022)" and U: "U = 2 powi (E - 52)"
    and N: "N = round_half_even (x / U)"
    and r: "round64 x = (if 1024 \<le> E \<or> (E = 1023 \<and> \<bar>N\<bar> = 2 ^ 53)
                      then (if 0 < x then PInf else NInf) else Fin (of_int N * U))"
    and Upos: "0 < U" and Nb: "\<bar>N\<bar> \<le> 2 ^ 53" and Elo: "- 1022 \<le> E"
    by (rule round64_parts)
  from r assms have noov: "\<not> (1024 \<le> E \<or> (E = 1023 \<and> \<bar>N\<bar> = 2 ^ 53))"
    and yN: "y = of_int N * U"
    by (auto split: if_splits)
  from y obtain E' U' N' where E': "E' = max (exponent_of \<bar>y\<bar>) (- 1022)"
    and U': "U' = 2 powi (E' - 52)" and N': "N' = round_half_even (y / U')"
    and r': "round64 y = (if 1024 \<le> E' \<or> (E' = 1023 \<and> \<bar>N'\<bar> = 2 ^ 53)
                      then (if 0 < y then PInf else NInf) else Fin (of_int N' * U'))"
    and U'pos: "0 < U'"
    by (rule round64_parts)
  have absy: "\<bar>y\<bar> = of_int \<bar>N\<bar> * U" using Upos by (simp add: yN abs_mult)
  have up: "(2::rat) ^ 53 * U = 2 powi (E + 1)" by (simp add: U power_int_diff power_int_add)
  show ?thesis
  proof (cases "\<bar>N\<bar> = 2 ^ 53")
    case True
    then have "\<bar>y\<bar> = 2 ^ 53 * U" by (simp add: absy)
    then have y2: "\<bar>y\<bar> = 2 powi (E + 1)" by (simp only: up)
    have "exponent_of \<bar>y\<bar> = E + 1"
      by (rule exponent_of_unique) (simp_all add: y2 power_int_add)
    with Elo have E'1: "E' = E + 1" by (simp add: E')
    then have U'2: "U' = 2 * U" by (simp add: U U' power_int_diff power_int_add)
    from True have "N = 2 ^ 53 \<or> N = - (2 ^ 53)" by (auto simp add: abs_if split: if_splits)
    then have "y / U' = of_int (N div 2) \<and> N = 2 * (N div 2)"
      using Upos by (auto simp add: yN U'2)
    then have "N' = N div 2" and "N = 2 * (N div 2)"
      by (simp_all add: N' round_half_even_of_int)
    then have "of_int N' * U' = y" and "\<bar>N'\<bar> \<noteq> 2 ^ 53"
      using True by (auto simp add: yN U'2 simp flip: of_int_mult)
    moreover from noov E'1 True have "\<not> 1024 \<le> E'" by auto
    ultimately show ?thesis by (simp add: r')
  next
    case False
    with Nb have "\<bar>N\<bar> < 2 ^ 53" by simp
    then have "(of_int \<bar>N\<bar> :: rat) < of_int (2 ^ 53)" by (simp only: of_int_less_iff)
    then have "\<bar>y\<bar> < 2 ^ 53 * U" using Upos by (simp add: absy)
    then have "\<bar>y\<bar> < 2 powi (E + 1)" by (simp only: up)
    with y have "exponent_of \<bar>y\<bar> \<le> E" by (intro exponent_of_le) simp_all
    with Elo have E'E: "E' \<le> E" by (simp add: E')
    from ulp_ratio [OF this] have UU: "U = of_int (2 ^ nat (E - E')) * U'" by (simp add: U U')
    then have "y / U' = of_int (N * 2 ^ nat (E - E'))" using U'pos by (simp add: yN)
    then have N'N: "N' = N * 2 ^ nat (E - E')" by (simp only: N' round_half_even_of_int)
    then have val: "of_int N' * U' = y" by (simp add: yN UU)
    from noov E'E have "\<not> 1024 \<le> E'" by auto
    moreover have "\<not> (E' = 1023 \<and> \<bar>N'\<bar> = 2 ^ 53)"
    proof
      assume a: "E' = 1023 \<and> \<bar>N'\<bar> = 2 ^ 53"
      with E'E noov have "E = E'" by auto
      with N'N have "N' = N" by simp
      with a False show False by simp
    qed
    ultimately show ?thesis using val by (simp add: r')
  qed
qed

lemma to_binary64_idem: "to_binary64 (to_binary64 x) = to_binary64 x"
proof (cases x)
  case (Fin r)
  show ?thesis
  proof (cases "round64 r")
    case (Fin y)
    from round64_idem [OF this] Fin \<open>x = Fin r\<close> show ?thesis by simp
  qed (simp_all add: \<open>x = Fin r\<close>)
qed simp_all

text \<open>Rounding is monotone: the rounding of a value above a binary64 value is not below it.\<close>

lemma round64_not_below:
  assumes c: "exact64 c" and cy: "c \<le> y"
  shows "js_le (Fin c) (round64 y)"
proof (cases "c = y")
  case True
  with c show ?thesis by (simp add: exact64_def)
next
  case False
  with cy have lt: "c < y" by simp
  show ?thesis
  proof (cases "y = 0")
    case True
    with lt show ?thesis by (simp add: round64_zero)
  next
    case y0: False
    from y0 obtain E U N where E: "E = max (exponent_of \<bar>y\<bar>) (- 1022)"
      and U: "U = 2 powi (E - 52)" and N: "N = round_half_even (y / U)"
      and r: "round64 y = (if 1024 \<le> E \<or> (E = 1023 \<and> \<bar>N\<bar> = 2 ^ 53)
                      then (if 0 < y then PInf else NInf) else Fin (of_int N * U))"
      and Upos: "0 < U" and hi: "\<bar>y\<bar> < 2 ^ 53 * U" and Nb: "\<bar>N\<bar> \<le> 2 ^ 53"
      and norm: "- 1022 < E \<longrightarrow> 2 ^ 52 * U \<le> \<bar>y\<bar>" and Elo: "- 1022 \<le> E"
      by (rule round64_parts)
    show ?thesis
    proof (cases "c = 0")
      case True
      with lt have "0 \<le> y / U" using Upos by simp
      then have "of_int 0 \<le> y / U" by simp
      then have "0 \<le> N" unfolding N by (rule round_half_even_ge)
      then have "0 \<le> of_int N * U" using Upos by simp
      with True lt show ?thesis by (simp add: r)
    next
      case c0: False
      from c0 obtain Ec Uc Nc where Ec: "Ec = max (exponent_of \<bar>c\<bar>) (- 1022)"
        and Uc: "Uc = 2 powi (Ec - 52)" and Nc: "Nc = round_half_even (c / Uc)"
        and rc: "round64 c = (if 1024 \<le> Ec \<or> (Ec = 1023 \<and> \<bar>Nc\<bar> = 2 ^ 53)
                      then (if 0 < c then PInf else NInf) else Fin (of_int Nc * Uc))"
        and Ucpos: "0 < Uc" and hic: "\<bar>c\<bar> < 2 ^ 53 * Uc" and Ncb: "\<bar>Nc\<bar> \<le> 2 ^ 53"
        and normc: "- 1022 < Ec \<longrightarrow> 2 ^ 52 * Uc \<le> \<bar>c\<bar>" and Eclo: "- 1022 \<le> Ec"
        by (rule round64_parts)
      from c rc have noovc: "\<not> (1024 \<le> Ec \<or> (Ec = 1023 \<and> \<bar>Nc\<bar> = 2 ^ 53))"
        and cN: "c = of_int Nc * Uc"
        by (auto simp add: exact64_def split: if_splits)
      have up: "(2::rat) ^ 53 * U = 2 powi (E + 1)" by (simp add: U power_int_diff power_int_add)
      have lo: "(2::rat) ^ 52 * U = 2 powi E" by (simp add: U power_int_diff)
      have upc: "(2::rat) ^ 53 * Uc = 2 powi (Ec + 1)"
        by (simp add: Uc power_int_diff power_int_add)
      have loc: "(2::rat) ^ 52 * Uc = 2 powi Ec" by (simp add: Uc power_int_diff)
      show ?thesis
      proof (cases "0 < y")
        case ypos: True
        then have "of_int 0 \<le> y / U" using Upos by simp
        then have N0: "0 \<le> N" unfolding N by (rule round_half_even_ge)
        show ?thesis
        proof (cases "c < 0")
          case True
          from N0 have "0 \<le> of_int N * U" using Upos by simp
          with True ypos show ?thesis by (simp add: r)
        next
          case False
          with c0 have cpos: "0 < c" by simp
          with lt have "exponent_of \<bar>c\<bar> \<le> exponent_of \<bar>y\<bar>"
            by (intro exponent_of_mono) simp_all
          then have EE: "Ec \<le> E" by (simp add: E Ec)
          have "c \<le> of_int N * U"
          proof (cases "Ec = E")
            case True
            then have UU: "Uc = U" by (simp add: U Uc)
            then have "of_int Nc \<le> y / U" using lt Upos by (simp add: cN pos_le_divide_eq)
            then have "Nc \<le> N" unfolding N by (rule round_half_even_ge)
            then have "(of_int Nc :: rat) \<le> of_int N" by (simp only: of_int_le_iff)
            then show ?thesis using Upos by (simp add: cN UU)
          next
            case False
            with EE have less: "Ec < E" by simp
            with Eclo norm ypos have "2 ^ 52 * U \<le> y" by simp
            then have "of_int (2 ^ 52) \<le> y / U" using Upos by (simp add: pos_le_divide_eq)
            then have "2 ^ 52 \<le> N" unfolding N by (rule round_half_even_ge)
            then have "(of_int (2 ^ 52) :: rat) \<le> of_int N" by (simp only: of_int_le_iff)
            then have "2 ^ 52 * U \<le> of_int N * U" using Upos by simp
            then have "2 powi E \<le> of_int N * U" by (simp only: lo)
            moreover have "(2::rat) powi (Ec + 1) \<le> 2 powi E"
              using less by (intro power_int_increasing) simp_all
            moreover from hic cpos have "c < 2 powi (Ec + 1)" by (simp only: upc abs_of_pos)
            ultimately show ?thesis by simp
          qed
          then show ?thesis using ypos by (simp add: r)
        qed
      next
        case False
        with y0 have yneg: "y < 0" by simp
        with lt have cneg: "c < 0" by simp
        from yneg lt have "exponent_of \<bar>y\<bar> \<le> exponent_of \<bar>c\<bar>"
          by (intro exponent_of_mono) simp_all
        then have EE: "E \<le> Ec" by (simp add: E Ec)
        from yneg have "y / U \<le> of_int 0" using Upos by (simp add: divide_le_0_iff)
        then have N0: "N \<le> 0" unfolding N by (rule round_half_even_le)
        have "c \<le> of_int N * U \<and> \<not> (E = 1023 \<and> \<bar>N\<bar> = 2 ^ 53)"
        proof (cases "E = Ec")
          case True
          then have UU: "Uc = U" by (simp add: U Uc)
          then have "of_int Nc \<le> y / U" using lt Upos by (simp add: cN pos_le_divide_eq)
          then have NN: "Nc \<le> N" unfolding N by (rule round_half_even_ge)
          then have "(of_int Nc :: rat) \<le> of_int N" by (simp only: of_int_le_iff)
          then have "c \<le> of_int N * U" using Upos by (simp add: cN UU)
          moreover have "\<not> (E = 1023 \<and> \<bar>N\<bar> = 2 ^ 53)"
            using NN N0 Ncb noovc True by auto
          ultimately show ?thesis by simp
        next
          case False
          with EE have less: "E < Ec" by simp
          with Elo normc cneg have "2 ^ 52 * Uc \<le> - c" by simp
          then have "2 powi Ec \<le> - c" by (simp only: loc)
          moreover have "(2::rat) powi (E + 1) \<le> 2 powi Ec"
            using less by (intro power_int_increasing) simp_all
          moreover have "- (2 ^ 53 * U) \<le> of_int N * U"
          proof -
            from Nb have "- (2 ^ 53) \<le> N" by simp
            then have "(of_int (- (2 ^ 53)) :: rat) \<le> of_int N" by (simp only: of_int_le_iff)
            then have "(of_int (- (2 ^ 53)) :: rat) * U \<le> of_int N * U"
              using Upos by (simp only: mult_le_cancel_right_pos)
            then show ?thesis by simp
          qed
          moreover note up
          ultimately have "c \<le> of_int N * U" by simp
          moreover from less noovc have "\<not> (E = 1023 \<and> \<bar>N\<bar> = 2 ^ 53)" by auto
          ultimately show ?thesis by simp
        qed
        moreover from EE noovc have "\<not> 1024 \<le> E" by auto
        ultimately show ?thesis by (simp add: r)
      qed
    qed
  qed
qed

text \<open>An operation whose exact result is a binary64 value returns it.\<close>

lemma add64_exact: "exact64 (a + b) \<Longrightarrow> add64 (Fin a) (Fin b) = Fin (a + b)"
  by (simp add: add64_def exact64_def)

lemma mul64_exact: "exact64 (a * b) \<Longrightarrow> mul64 (Fin a) (Fin b) = Fin (a * b)"
  by (simp add: mul64_def exact64_def)

lemma div64_exact: "b \<noteq> 0 \<Longrightarrow> exact64 (a / b) \<Longrightarrow> div64 (Fin a) (Fin b) = Fin (a / b)"
  by (simp add: div64_def exact64_def)

text \<open>The rules by which a run on given numbers is evaluated.\<close>

lemmas eval_round64 = exact64_def round64_def exponent_of_step round_half_even_def Let_def

section \<open>Unfolding the binary64 loop\<close>

lemma heat_loop64_exit:
  "\<not> js_lt (currentTemperature s) tt \<Longrightarrow> heat_loop64 m c tt P ts s = Some s"
  by (subst heat_loop64.simps) simp

lemma heat_loop64_enter:
  "js_lt (currentTemperature s) tt \<Longrightarrow>
   heat_loop64 m c tt P ts s =
     (case loop_body64 m c P ts s of
        (s', stop) \<Rightarrow> if stop then Some s' else heat_loop64 m c tt P ts s')"
  by (subst heat_loop64.simps) simp

lemmas eval64 = simulateHeatTransfer64_def heat_loop64_enter heat_loop64_exit loop_body64_def
  temperatureIncrease64_def mul64_def div64_def add64_def round64_def exponent_of_step
  round_half_even_def Let_def


lemma iterations64_Suc_Some:
  assumes "iterations64 (Suc k) m c tt P ts s0 = Some (s', stop')"
  shows "\<exists>s. iterations64 k m c tt P ts s0 = Some (s, False)
     \<and> js_lt (currentTemperature s) tt \<and> loop_body64 m c P ts s = (s', stop')"
  using assms by (auto split: option.splits if_splits)








section \<open>Runs in which no operation rounds\<close>

lemma heat_loop64_exact:
  assumes inc: "temperatureIncrease64 m c P (Fin ts) = Fin d" and d: "0 < d"
    and ex: "\<forall>k \<in> {1..N}. exact64 (ti + of_nat k * d) \<and> exact64 (of_nat k * ts)"
    and N: "N = nat \<lceil>(tt - ti) / d\<rceil>"
  shows "j \<le> N \<Longrightarrow>
     heat_loop64 m c (Fin tt) P (Fin ts)
       \<lparr>currentTemperature = Fin (ti + of_nat j * d), totalTime = Fin (of_nat j * ts)\<rparr> =
     Some \<lparr>currentTemperature = Fin (ti + of_nat N * d), totalTime = Fin (of_nat N * ts)\<rparr>"
proof (induction "N - j" arbitrary: j)
  case 0
  then have j: "j = N" by simp
  have "(tt - ti) / d \<le> of_int \<lceil>(tt - ti) / d\<rceil>" by (rule le_of_int_ceiling)
  also have "\<dots> \<le> of_nat N"
  proof -
    have "\<lceil>(tt - ti) / d\<rceil> \<le> int N" unfolding N by simp
    then have "(of_int \<lceil>(tt - ti) / d\<rceil> :: rat) \<le> of_int (int N)" by (simp only: of_int_le_iff)
    then show ?thesis by simp
  qed
  finally have "tt - ti \<le> of_nat N * d" using d by (simp add: pos_divide_le_eq)
  then have "\<not> js_lt (Fin (ti + of_nat N * d)) (Fin tt)" by simp
  then show ?case unfolding j by (simp add: heat_loop64_exit)
next
  case (Suc n)
  then have jN: "j < N" and n: "n = N - Suc j" by simp_all
  from jN have "int j < \<lceil>(tt - ti) / d\<rceil>" unfolding N by simp
  then have "of_int (int j) < (tt - ti) / d" by (simp only: less_ceiling_iff)
  then have lt: "ti + of_nat j * d < tt" using d by (simp add: pos_less_divide_eq)
  from jN have "Suc j \<in> {1..N}" by simp
  from bspec [OF ex this]
  have e1: "round64 (ti + of_nat j * d + d) = Fin (ti + of_nat j * d + d)"
    and e2: "round64 (of_nat j * ts + ts) = Fin (of_nat j * ts + ts)"
    by (simp_all add: exact64_def algebra_simps)
  have body: "loop_body64 m c P (Fin ts)
      \<lparr>currentTemperature = Fin (ti + of_nat j * d), totalTime = Fin (of_nat j * ts)\<rparr> =
      (\<lparr>currentTemperature = Fin (ti + of_nat j * d + d),
        totalTime = Fin (of_nat j * ts + ts)\<rparr>, False)"
    using inc d e1 e2 by (simp add: loop_body64_def Let_def add64_def)
  have "heat_loop64 m c (Fin tt) P (Fin ts)
       \<lparr>currentTemperature = Fin (ti + of_nat j * d), totalTime = Fin (of_nat j * ts)\<rparr> =
     heat_loop64 m c (Fin tt) P (Fin ts)
       \<lparr>currentTemperature = Fin (ti + of_nat j * d + d),
         totalTime = Fin (of_nat j * ts + ts)\<rparr>"
    using lt by (simp add: heat_loop64_enter body)
  also have "\<dots> = heat_loop64 m c (Fin tt) P (Fin ts)
       \<lparr>currentTemperature = Fin (ti + of_nat (Suc j) * d),
         totalTime = Fin (of_nat (Suc j) * ts)\<rparr>"
    by (simp add: algebra_simps)
  also have "\<dots> = Some \<lparr>currentTemperature = Fin (ti + of_nat N * d),
       totalTime = Fin (of_nat N * ts)\<rparr>"
    using jN by (intro Suc(1) [OF n]) simp
  finally show ?case .
qed

lemma simulate64_closed_form:
  assumes mc: "m * c \<noteq> 0" and d: "0 < spec_deltaT (nc * cp * 1000) ts m c"
    and ex: "run_exact m c ti tt nc cp ts"
  shows "simulateHeatTransfer64 (Fin m) (Fin c) (Fin ti) (Fin tt) (Fin nc) (Fin cp) (Fin ts) =
     Some (Fin (of_nat (nat (spec_steps ti tt (spec_deltaT (nc * cp * 1000) ts m c))) * ts))"
proof -
  let ?d = "spec_deltaT (nc * cp * 1000) ts m c"
  let ?N = "nat (spec_steps ti tt ?d)"
  from ex have P: "mul64 (mul64 (Fin nc) (Fin cp)) (Fin 1000) = Fin (nc * cp * 1000)"
    by (simp add: run_exact_def Let_def mul64_exact)
  from ex mc have inc: "temperatureIncrease64 (Fin m) (Fin c) (Fin (nc * cp * 1000)) (Fin ts) = Fin ?d"
    by (simp add: run_exact_def Let_def temperatureIncrease64_def mul64_exact div64_exact
        spec_deltaT_def)
  from ex have sums: "\<forall>k \<in> {1..?N}. exact64 (ti + of_nat k * ?d) \<and> exact64 (of_nat k * ts)"
    by (simp add: run_exact_def Let_def)
  have N: "?N = nat \<lceil>(tt - ti) / ?d\<rceil>" by (simp add: spec_steps_def)
  from heat_loop64_exact [OF inc d sums N, of 0] show ?thesis
    by (simp add: simulateHeatTransfer64_def P)
qed

text \<open>A small run: 1000 kg of specific heat 1, from 0 to 5 degrees, 2 or 4 collectors of 1 kW, steps of 1 s.\<close>

lemma small_run_steps: "spec_steps 0 5 (spec_deltaT (2 * 1 * 1000) 1 1000 1) = 3"
  by (simp add: spec_steps_def spec_deltaT_def) (rule ceiling_unique; simp)

lemma small_run_exact: "run_exact 1000 1 0 5 2 1 1"
  using small_run_steps
  by (simp add: run_exact_def Let_def eval_nat_numeral atLeastAtMostSuc_conv)
     (simp add: spec_deltaT_def eval_round64)




lemma small_run_passes:
  "iterations64 2 (Fin 1000) (Fin 1) (Fin 5) (mul64 (mul64 (Fin 2) (Fin 1)) (Fin 1000)) (Fin 1)
     \<lparr>currentTemperature = Fin 0, totalTime = Fin 0\<rparr> =
   Some (\<lparr>currentTemperature = Fin 4, totalTime = Fin 2\<rparr>, False)"
  by (simp add: numeral_2_eq_2 eval64)

lemma small_run_trace:
  "iterations64 1 (Fin 1000) (Fin 1) (Fin 5) (mul64 (mul64 (Fin 2) (Fin 1)) (Fin 1000)) (Fin 1)
     \<lparr>currentTemperature = Fin 0, totalTime = Fin 0\<rparr> =
   Some (\<lparr>currentTemperature = Fin 2, totalTime = Fin 1\<rparr>, False)"
  "iterations64 3 (Fin 1000) (Fin 1) (Fin 5) (mul64 (mul64 (Fin 2) (Fin 1)) (Fin 1000)) (Fin 1)
     \<lparr>currentTemperature = Fin 0, totalTime = Fin 0\<rparr> =
   Some (\<lparr>currentTemperature = Fin 6, totalTime = Fin 3\<rparr>, False)"
  "iterations64 4 (Fin 1000) (Fin 1) (Fin 5) (mul64 (mul64 (Fin 2) (Fin 1)) (Fin 1000)) (Fin 1)
     \<lparr>currentTemperature = Fin 0, totalTime = Fin 0\<rparr> = None"
  by (simp_all add: eval_nat_numeral eval64)

text \<open>
  C1 (as amended). For finite inputs with \<open>mass > 0\<close>, \<open>specificHeat > 0\<close>, \<open>timeStep > 0\<close>,
  \<open>totalPowerOutput = numCollectors * collectorPower * 1000 > 0\<close> and
  \<open>targetTemperature > initialTemperature\<close>, on which no operation of the run rounds
  (\<open>run_exact\<close>): the call, in the arithmetic of the source, returns \<open>n * timeStep\<close> with
  \<open>n = ceil((targetTemperature - initialTemperature) / deltaT)\<close> and
  \<open>deltaT = (totalPowerOutput * timeStep) / (mass * specificHeat)\<close>; \<open>n\<close> is positive, and
  it is the least number of steps whose cumulative rise \<open>k * deltaT\<close> reaches
  \<open>targetTemperature - initialTemperature\<close>.
\<close>

theorem C1_steps_formula:
  assumes "0 < mass" and "0 < specificHeat" and "0 < timeStep"
    and "0 < numCollectors * collectorPower * 1000"
    and "initialTemperature < targetTemperature"
    and "run_exact mass specificHeat initialTemperature targetTemperature
           numCollectors collectorPower timeStep"
  shows "simulateHeatTransfer64 (Fin mass) (Fin specificHeat) (Fin initialTemperature)
           (Fin targetTemperature) (Fin numCollectors) (Fin collectorPower) (Fin timeStep) =
         Some (Fin (of_int (spec_steps initialTemperature targetTemperature
           (spec_deltaT (numCollectors * collectorPower * 1000) timeStep mass specificHeat)) * timeStep))
       \<and> 0 < spec_steps initialTemperature targetTemperature
           (spec_deltaT (numCollectors * collectorPower * 1000) timeStep mass specificHeat)
       \<and> (\<forall>k. (targetTemperature - initialTemperature \<le>
                of_int k * spec_deltaT (numCollectors * collectorPower * 1000) timeStep mass specificHeat) =
              (spec_steps initialTemperature targetTemperature
                (spec_deltaT (numCollectors * collectorPower * 1000) timeStep mass specificHeat) \<le> k))"
proof -
  let ?d = "spec_deltaT (numCollectors * collectorPower * 1000) timeStep mass specificHeat"
  let ?n = "spec_steps initialTemperature targetTemperature ?d"
  have d: "0 < ?d" using assms by (simp add: deltaT_pos)
  have mc: "mass * specificHeat \<noteq> 0" using assms by simp
  have "0 < (targetTemperature - initialTemperature) / ?d" using d assms(5) by simp
  then have n: "0 < ?n" by (simp add: spec_steps_def)
  have least: "(targetTemperature - initialTemperature \<le> of_int k * ?d) = (?n \<le> k)" for k
    using d by (simp add: spec_steps_def ceiling_le_iff pos_divide_le_eq)
  have "of_nat (nat ?n) = (of_int ?n :: rat)" using n by simp
  then show ?thesis using simulate64_closed_form [OF mc d assms(6)] n least
    by simp
qed

text \<open>The small run with 2 collectors: 3 steps of 1 second.\<close>

theorem C1_steps_formula_witness:
  "run_exact 1000 1 0 5 2 1 1
   \<and> simulateHeatTransfer64 (Fin 1000) (Fin 1) (Fin 0) (Fin 5) (Fin 2) (Fin 1) (Fin 1) = Some (Fin 3)"
  using C1_steps_formula [of 1000 1 1 2 1 0 5] small_run_exact small_run_steps by simp

text \<open>
  Heating 10000 kg of specific heat 1 by one degree with 1 kW in steps of 1 s: the increase
  of a step is the binary64 value nearest to \<open>1 / 10\<close>, and the tenth partial sum is just
  below 1, so that the loop makes an eleventh pass.
\<close>

lemma tenth_of_degree_run:
  "simulateHeatTransfer64 (Fin 10000) (Fin 1) (Fin 0) (Fin 1) (Fin 1) (Fin 1) (Fin 1) = Some (Fin 11)"
  by (simp add: eval64)

text \<open>
  C1 as stated fails where the operations round: the call
  \<^verbatim>\<open>simulateHeatTransfer(10000, 1, 0, 1, 1, 1, 1)\<close> returns 11, and the formula gives
  \<open>ceil(1 / (1000 / 10000)) * 1 = 10\<close>.
\<close>

theorem C1_counterexample:
  "simulateHeatTransfer64 (Fin 10000) (Fin 1) (Fin 0) (Fin 1) (Fin 1) (Fin 1) (Fin 1) = Some (Fin 11)
   \<and> Fin (of_int (spec_steps 0 1 (spec_deltaT (1 * 1 * 1000) 1 10000 1)) * 1) = Fin 10"
proof -
  have "spec_steps 0 1 (spec_deltaT (1 * 1 * 1000) 1 10000 1) = 10"
    by (simp add: spec_steps_def spec_deltaT_def)
  with tenth_of_degree_run show ?thesis by simp
qed

section \<open>More power\<close>





section \<open>Runs without power\<close>







section \<open>The passes of a run\<close>





section \<open>The temperature from pass to pass\<close>

lemma iterations64_binary64:
  assumes "to_binary64 ti = ti"
    and "iterations64 k m c tt P ts \<lparr>currentTemperature = ti, totalTime = T\<rparr> = Some (s, stop)"
  shows "to_binary64 (currentTemperature s) = currentTemperature s"
proof (cases k)
  case 0
  with assms show ?thesis by auto
next
  case (Suc j)
  with assms(2) iterations64_Suc_Some [of j m c tt P ts _ s stop]
  obtain s1 where "loop_body64 m c P ts s1 = (s, stop)" by blast
  then show ?thesis by (auto simp add: loop_body64_def Let_def add64_def to_binary64_idem)
qed

lemma add64_not_below:
  assumes "to_binary64 x = x" and "js_lt x tt" and "\<not> js_le i (Fin 0)"
  shows "add64 x i = NaN \<or> js_le x (add64 x i)"
proof (cases i)
  case (Fin d)
  with assms(3) have d: "0 < d" by simp
  show ?thesis
  proof (cases x)
    case (Fin a)
    with assms(1) have "exact64 a" by (simp add: exact64_def)
    moreover have "a \<le> a + d" using d by simp
    ultimately have "js_le (Fin a) (round64 (a + d))" by (rule round64_not_below)
    with Fin \<open>i = Fin d\<close> show ?thesis by (simp add: add64_def)
  qed (use assms(2) \<open>i = Fin d\<close> in \<open>simp_all add: add64_def\<close>)
next
  case PInf
  then show ?thesis using assms(2) by (cases x) (simp_all add: add64_def)
next
  case NInf
  with assms(3) show ?thesis by simp
next
  case NaN
  then show ?thesis by (simp add: add64_def js_add_NaN_right)
qed

text \<open>
  C6 (as amended). For every input, finite or not (the initial temperature a binary64
  value), and every pass of the loop: the safety check fires on that pass, or the
  temperature after it is \<^verbatim>\<open>NaN\<close>, or it is greater than or equal to the temperature before
  the pass. The check fires exactly when the increase is \<^verbatim>\<open><= 0\<close>, and a pass on which
  it fires, or after which the temperature is \<^verbatim>\<open>NaN\<close>, is the last one.
\<close>

theorem C6_temperature_non_decreasing:
  assumes "to_binary64 initialTemperature = initialTemperature"
    and "iterations64 k mass specificHeat targetTemperature
        (mul64 (mul64 numCollectors collectorPower) (Fin 1000)) timeStep
        \<lparr>currentTemperature = initialTemperature, totalTime = Fin 0\<rparr> = Some (s, stop)"
    and "iterations64 (Suc k) mass specificHeat targetTemperature
        (mul64 (mul64 numCollectors collectorPower) (Fin 1000)) timeStep
        \<lparr>currentTemperature = initialTemperature, totalTime = Fin 0\<rparr> = Some (s', stop')"
  shows "(stop' \<or> currentTemperature s' = NaN
          \<or> js_le (currentTemperature s) (currentTemperature s'))
       \<and> stop' = js_le (temperatureIncrease64 mass specificHeat
            (mul64 (mul64 numCollectors collectorPower) (Fin 1000)) timeStep) (Fin 0)
       \<and> (stop' \<or> currentTemperature s' = NaN \<longrightarrow>
            iterations64 (Suc (Suc k)) mass specificHeat targetTemperature
              (mul64 (mul64 numCollectors collectorPower) (Fin 1000)) timeStep
              \<lparr>currentTemperature = initialTemperature, totalTime = Fin 0\<rparr> = None)"
proof -
  let ?P = "mul64 (mul64 numCollectors collectorPower) (Fin 1000)"
  let ?inc = "temperatureIncrease64 mass specificHeat ?P timeStep"
  from iterations64_Suc_Some [OF assms(3)] assms(2)
  have enter: "js_lt (currentTemperature s) targetTemperature"
    and body: "loop_body64 mass specificHeat ?P timeStep s = (s', stop')"
    by auto
  from body have cur: "currentTemperature s' = add64 (currentTemperature s) ?inc"
    and guard: "stop' = js_le ?inc (Fin 0)"
    by (auto simp add: loop_body64_def Let_def)
  have bin: "to_binary64 (currentTemperature s) = currentTemperature s"
    using assms(1,2) by (rule iterations64_binary64)
  have first: "stop' \<or> currentTemperature s' = NaN
      \<or> js_le (currentTemperature s) (currentTemperature s')"
    using add64_not_below [OF bin enter, of ?inc] by (auto simp add: cur guard)
  have last: "iterations64 (Suc (Suc k)) mass specificHeat targetTemperature ?P timeStep
      \<lparr>currentTemperature = initialTemperature, totalTime = Fin 0\<rparr> = None"
    if "stop' \<or> currentTemperature s' = NaN"
    using that assms(3) by auto
  from first guard last show ?thesis by blast
qed

text \<open>The second pass of the small run: from 2 to 4 degrees.\<close>

theorem C6_temperature_non_decreasing_witness:
  "to_binary64 (Fin 0) = Fin 0
   \<and> iterations64 1 (Fin 1000) (Fin 1) (Fin 5) (mul64 (mul64 (Fin 2) (Fin 1)) (Fin 1000)) (Fin 1)
        \<lparr>currentTemperature = Fin 0, totalTime = Fin 0\<rparr> =
      Some (\<lparr>currentTemperature = Fin 2, totalTime = Fin 1\<rparr>, False)
   \<and> iterations64 (Suc 1) (Fin 1000) (Fin 1) (Fin 5) (mul64 (mul64 (Fin 2) (Fin 1)) (Fin 1000))
        (Fin 1) \<lparr>currentTemperature = Fin 0, totalTime = Fin 0\<rparr> =
      Some (\<lparr>currentTemperature = Fin 4, totalTime = Fin 2\<rparr>, False)
   \<and> js_le (currentTemperature \<lparr>currentTemperature = Fin 2, totalTime = Fin 1\<rparr>)
        (currentTemperature \<lparr>currentTemperature = Fin 4, totalTime = Fin 2\<rparr>)"
proof -
  have b: "to_binary64 (Fin 0) = Fin 0" by (simp add: round64_zero)
  have i2: "iterations64 (Suc 1) (Fin 1000) (Fin 1) (Fin 5)
        (mul64 (mul64 (Fin 2) (Fin 1)) (Fin 1000)) (Fin 1)
        \<lparr>currentTemperature = Fin 0, totalTime = Fin 0\<rparr> =
      Some (\<lparr>currentTemperature = Fin 4, totalTime = Fin 2\<rparr>, False)"
    using small_run_passes by (simp add: numeral_2_eq_2)
  from C6_temperature_non_decreasing [OF b small_run_trace(1) i2]
  have "js_le (currentTemperature \<lparr>currentTemperature = Fin 2, totalTime = Fin 1\<rparr>)
        (currentTemperature \<lparr>currentTemperature = Fin 4, totalTime = Fin 2\<rparr>)"
    by simp
  with b small_run_trace(1) i2 show ?thesis by (intro conjI)
qed

text \<open>
  C6 as stated fails: the check runs after the update and does not undo it. On the
  reference scenario with \<open>collectorPower = -4\<close> the one pass of the loop lowers the
  temperature from 20 to \<open>19.8566...\<close>, and then the check leaves the loop.
\<close>

theorem C6_counterexample:
  "iterations64 0 (Fin 10000) (Fin 4186) (Fin 60)
        (mul64 (mul64 (Fin 25) (Fin (- 4))) (Fin 1000)) (Fin 60)
        \<lparr>currentTemperature = Fin 20, totalTime = Fin 0\<rparr> =
       Some (\<lparr>currentTemperature = Fin 20, totalTime = Fin 0\<rparr>, False)
   \<and> iterations64 (Suc 0) (Fin 10000) (Fin 4186) (Fin 60)
        (mul64 (mul64 (Fin 25) (Fin (- 4))) (Fin 1000)) (Fin 60)
        \<lparr>currentTemperature = Fin 20, totalTime = Fin 0\<rparr> =
       Some (\<lparr>currentTemperature = Fin (1397288584817829 / 70368744177664),
               totalTime = Fin 60\<rparr>, True)
   \<and> \<not> js_le (Fin 20) (Fin (1397288584817829 / 70368744177664))"
  by (simp add: eval64)

section \<open>Shifting both temperatures\<close>







end
